theory Spec2Isabelle
  imports Main "HOL-Library.Word"
begin

section \<open>Data model\<close>

subsection \<open>Run policies and compiled steps\<close>

text \<open>
  The run policy of a compiled step is the enumeration \<^verbatim>\<open>runtime.RunPolicy\<close> of the
  runner library; its zero value, the policy of a freshly created step, is
  \<^verbatim>\<open>RunOnSuccess\<close>.
\<close>

datatype RunPolicy = RunOnSuccess | RunOnFailure | RunAlways | RunNever

datatype ErrPolicy = ErrFail | ErrFailFast | ErrIgnore

text \<open>
  A compiled step (\<^verbatim>\<open>engine.Step\<close>). The record lists the fields that
  \<^verbatim>\<open>command/exec.go\<close> and \<^verbatim>\<open>engine/compiler/util.go\<close> read or write; every
  other field of the Go struct lives in the extension slot of the record scheme
  \<open>'a Step_scheme\<close>, so that a statement about \<open>Step.more\<close> speaks about all of them.

  The Go code holds the steps as a slice of pointers. The pointers of a compiled
  pipeline are pairwise distinct and not nil, so the slice is modelled as a list of
  records and an assignment through a pointer as an update of that list element.
  A nil slice and an empty slice both have length 0 and are both the empty list.
\<close>

record Step =
  Name :: string
  DependsOn :: "string list"
  RunPolicy :: RunPolicy
  ErrPolicy :: ErrPolicy

subsection \<open>Status conditions of a declared step\<close>

text \<open>
  \<^verbatim>\<open>manifest.Condition\<close> is a pair of pattern lists; \<^verbatim>\<open>resource.Step\<close> reaches its
  status condition as \<^verbatim>\<open>step.When.Status\<close>.
\<close>

record Condition =
  Include :: "string list"
  Exclude :: "string list"

record Conditions =
  Status :: Condition

record resource_Step =
  When :: Conditions

text \<open>The two build statuses the helpers ask about (constants of the client library).\<close>

definition StatusPassing :: string where
  "StatusPassing = ''success''"

definition StatusFailing :: string where
  "StatusFailing = ''failure''"

text \<open>
  \<^verbatim>\<open>Condition.Match\<close> belongs to the runner library, not to this repository. The
  helpers below take it as a parameter \<open>Match\<close>, so everything proved about them
  holds for whatever the library computes. \<open>literalMatch\<close> is one concrete matcher of
  the library's shape (an excluded status never matches, an included one does, an
  empty include list admits everything else), with string equality in place of glob
  patterns; it only serves to instantiate the parameter on examples.
\<close>

definition literalMatch :: "Condition \<Rightarrow> string \<Rightarrow> bool" where
  "literalMatch c v =
     (if v \<in> set (Exclude c) then False
      else if v \<in> set (Include c) then True
      else if length (Include c) = 0 then True
      else False)"

subsection \<open>Resources and the command\<close>

text \<open>
  Every amount is a Go \<^verbatim>\<open>int64\<close> (the flags are registered with \<^verbatim>\<open>Int64Var\<close>): a
  64-bit word whose arithmetic wraps around and whose value is read by \<open>sint\<close>.
\<close>

type_synonym int64 = "64 word"

record ResourceObject =
  CPU :: int64
  Memory :: int64
  GPU :: int64

record Resources =
  Limits :: ResourceObject
  MinRequests :: ResourceObject

text \<open>The part of \<^verbatim>\<open>compiler.Compiler\<close> that the command fills with resource amounts.\<close>

record Compiler =
  Resources :: Resources
  StageRequests :: ResourceObject

text \<open>The fields of \<^verbatim>\<open>execCommand\<close> that the modelled part of \<^verbatim>\<open>run\<close> uses.\<close>

record execCommand =
  Include :: "string list"
  Exclude :: "string list"
  Resource :: Resources
  StageRequests :: ResourceObject

section \<open>engine/compiler/util.go\<close>

subsection \<open>Run-policy helpers\<close>

definition isRunAlways :: "(Condition \<Rightarrow> string \<Rightarrow> bool) \<Rightarrow> 'a resource_Step_scheme \<Rightarrow> bool" where
  "isRunAlways Match step =
     (if length (Condition.Include (Status (When step))) = 0 \<and>
         length (Condition.Exclude (Status (When step))) = 0
      then False
      else Match (Status (When step)) StatusFailing \<and>
           Match (Status (When step)) StatusPassing)"

definition isRunOnFailure :: "(Condition \<Rightarrow> string \<Rightarrow> bool) \<Rightarrow> 'a resource_Step_scheme \<Rightarrow> bool" where
  "isRunOnFailure Match step =
     (if length (Condition.Include (Status (When step))) = 0 \<and>
         length (Condition.Exclude (Status (When step))) = 0
      then False
      else Match (Status (When step)) StatusFailing)"

text \<open>
  Modelled from the spec: the run-policy resolver of the compiler, which is not among
  the source files. Section 4.1 of the specification has it test "always" first,
  then "on failure", and leave the default "on success only" otherwise.
\<close>

definition resolveRunPolicy :: "(Condition \<Rightarrow> string \<Rightarrow> bool) \<Rightarrow> 'a resource_Step_scheme \<Rightarrow> RunPolicy" where
  "resolveRunPolicy Match step =
     (if isRunAlways Match step then RunAlways
      else if isRunOnFailure Match step then RunOnFailure
      else RunOnSuccess)"

subsection \<open>Dependency graph\<close>

fun isGraph :: "'a Step_scheme list \<Rightarrow> bool" where
  "isGraph [] = False"
| "isGraph (step # steps) = (if length (DependsOn step) > 0 then True else isGraph steps)"

text \<open>
  The loop of \<^verbatim>\<open>configureSerial\<close> carries \<^verbatim>\<open>prev\<close>, nil before the first step and
  afterwards the step visited last (as it stands after its own update).
\<close>

fun configureSerial_loop :: "'a Step_scheme option \<Rightarrow> 'a Step_scheme list \<Rightarrow> 'a Step_scheme list" where
  "configureSerial_loop prev [] = []"
| "configureSerial_loop prev (step # steps) =
     (let step' = (case prev of
                     None \<Rightarrow> step
                   | Some p \<Rightarrow> step\<lparr>DependsOn := [Name p]\<rparr>)
      in step' # configureSerial_loop (Some step') steps)"

definition configureSerial :: "'a Step_scheme list \<Rightarrow> 'a Step_scheme list" where
  "configureSerial steps = configureSerial_loop None steps"

fun configureCloneDeps :: "'a Step_scheme list \<Rightarrow> 'a Step_scheme list" where
  "configureCloneDeps [] = []"
| "configureCloneDeps (step # steps) =
     (if Name step = ''clone'' then step
      else if length (DependsOn step) = 0 then step\<lparr>DependsOn := [''clone'']\<rparr>
      else step) # configureCloneDeps steps"

text \<open>The first loop of \<^verbatim>\<open>removeCloneDeps\<close>: does it return early?\<close>

fun hasCloneStep :: "'a Step_scheme list \<Rightarrow> bool" where
  "hasCloneStep [] = False"
| "hasCloneStep (step # steps) = (if Name step = ''clone'' then True else hasCloneStep steps)"

text \<open>The second loop. The element at index 0 is read only when the length is 1.\<close>

fun removeCloneDeps_loop :: "'a Step_scheme list \<Rightarrow> 'a Step_scheme list" where
  "removeCloneDeps_loop [] = []"
| "removeCloneDeps_loop (step # steps) =
     (if length (DependsOn step) = 1
      then (if DependsOn step ! 0 = ''clone'' then step\<lparr>DependsOn := []\<rparr> else step)
      else step) # removeCloneDeps_loop steps"

definition removeCloneDeps :: "'a Step_scheme list \<Rightarrow> 'a Step_scheme list" where
  "removeCloneDeps steps = (if hasCloneStep steps then steps else removeCloneDeps_loop steps)"

subsection \<open>Resource resolution\<close>

text \<open>The comparison \<^verbatim>\<open>value > 0\<close> is the signed one of \<^verbatim>\<open>int64\<close>.\<close>

fun firstNonZero :: "int64 list \<Rightarrow> int64" where
  "firstNonZero [] = 0"
| "firstNonZero (v # values) = (if 0 <s v then v else firstNonZero values)"

text \<open>
  The rule in the words of the specification, for comparison with the code: the first
  candidate different from zero, and zero when there is none.
\<close>

fun firstNonZero_spec :: "int64 list \<Rightarrow> int64" where
  "firstNonZero_spec [] = 0"
| "firstNonZero_spec (v # values) = (if v \<noteq> 0 then v else firstNonZero_spec values)"

section \<open>command/exec.go\<close>

subsection \<open>Memory amounts\<close>

text \<open>
  The first three statements of \<^verbatim>\<open>run\<close>, in their order. The constant
  \<^verbatim>\<open>1024 * 1024\<close> is evaluated by the Go compiler; the product with the field is an
  \<^verbatim>\<open>int64\<close> product and wraps around.
\<close>

definition convertMemory :: "'a execCommand_scheme \<Rightarrow> 'a execCommand_scheme" where
  "convertMemory c =
     (let c1 = c\<lparr>Resource := (Resource c)
                 \<lparr>Limits := (Limits (Resource c))
                    \<lparr>Memory := Memory (Limits (Resource c)) * (1024 * 1024)\<rparr>\<rparr>\<rparr>;
          c2 = c1\<lparr>Resource := (Resource c1)
                 \<lparr>MinRequests := (MinRequests (Resource c1))
                    \<lparr>Memory := Memory (MinRequests (Resource c1)) * (1024 * 1024)\<rparr>\<rparr>\<rparr>;
          c3 = c2\<lparr>StageRequests := (execCommand.StageRequests c2)
                    \<lparr>Memory := Memory (execCommand.StageRequests c2) * (1024 * 1024)\<rparr>\<rparr>
      in c3)"

text \<open>The resource fields of the compiler literal that \<^verbatim>\<open>run\<close> builds from the command.\<close>

definition newCompiler :: "'a execCommand_scheme \<Rightarrow> Compiler" where
  "newCompiler c =
     \<lparr>Resources = \<lparr>Limits = Limits (Resource c), MinRequests = MinRequests (Resource c)\<rparr>,
      StageRequests = execCommand.StageRequests c\<rparr>"

text \<open>
  The amounts, in megabytes, whose product with \<^verbatim>\<open>1024 * 1024\<close> fits into an
  \<^verbatim>\<open>int64\<close>: from \<open>- 2\<^sup>4\<^sup>3\<close> up to, and without, \<open>2\<^sup>4\<^sup>3\<close>.
\<close>

definition mbInRange :: "int64 \<Rightarrow> bool" where
  "mbInRange m = (- (2 ^ 43) \<le> sint m \<and> sint m < 2 ^ 43)"

text \<open>What reaches compilation: the compiler built after the conversion.\<close>

definition run_compiler :: "'a execCommand_scheme \<Rightarrow> Compiler" where
  "run_compiler c = newCompiler (convertMemory c)"

subsection \<open>Step filter\<close>

text \<open>
  The inner loop of both blocks walks a list of names and leaves at the first name
  equal to the step's; \<open>nameListed\<close> tells whether it left that way.
\<close>

fun nameListed :: "string \<Rightarrow> string list \<Rightarrow> bool" where
  "nameListed n [] = False"
| "nameListed n (name # names) = (if n = name then True else nameListed n names)"

text \<open>The loop labelled \<^verbatim>\<open>I\<close>.\<close>

fun include_loop :: "string list \<Rightarrow> 'a Step_scheme list \<Rightarrow> 'a Step_scheme list" where
  "include_loop inc [] = []"
| "include_loop inc (step # steps) =
     (if Name step = ''clone'' then step
      else if nameListed (Name step) inc then step
      else step\<lparr>RunPolicy := RunNever\<rparr>) # include_loop inc steps"

text \<open>The loop labelled \<^verbatim>\<open>E\<close>.\<close>

fun exclude_loop :: "string list \<Rightarrow> 'a Step_scheme list \<Rightarrow> 'a Step_scheme list" where
  "exclude_loop exc [] = []"
| "exclude_loop exc (step # steps) =
     (if Name step = ''clone'' then step
      else if nameListed (Name step) exc then step\<lparr>RunPolicy := RunNever\<rparr>
      else step) # exclude_loop exc steps"

text \<open>The two guarded blocks, and the filter: the first block, then the second.\<close>

definition includeSteps :: "string list \<Rightarrow> 'a Step_scheme list \<Rightarrow> 'a Step_scheme list" where
  "includeSteps inc steps = (if length inc > 0 then include_loop inc steps else steps)"

definition excludeSteps :: "string list \<Rightarrow> 'a Step_scheme list \<Rightarrow> 'a Step_scheme list" where
  "excludeSteps exc steps = (if length exc > 0 then exclude_loop exc steps else steps)"

definition filterSteps :: "string list \<Rightarrow> string list \<Rightarrow> 'a Step_scheme list \<Rightarrow> 'a Step_scheme list" where
  "filterSteps inc exc steps = excludeSteps exc (includeSteps inc steps)"

text \<open>The filter as \<^verbatim>\<open>run\<close> calls it, with the lists of the command.\<close>

definition run_filter :: "'b execCommand_scheme \<Rightarrow> 'a Step_scheme list \<Rightarrow> 'a Step_scheme list" where
  "run_filter c steps = filterSteps (execCommand.Include c) (execCommand.Exclude c) steps"

section \<open>Example pipelines\<close>

definition mkStep :: "string \<Rightarrow> string list \<Rightarrow> RunPolicy \<Rightarrow> Step" where
  "mkStep n deps p = \<lparr>Name = n, DependsOn = deps, RunPolicy = p, ErrPolicy = ErrFail\<rparr>"

text \<open>The compiled set of the specification's examples: clone, build, test, deploy.\<close>

definition pipelineSteps :: "Step list" where
  "pipelineSteps =
     [mkStep ''clone'' [] RunOnSuccess,
      mkStep ''build'' [] RunOnSuccess,
      mkStep ''test'' [] RunAlways,
      mkStep ''deploy'' [] RunOnFailure]"

text \<open>The same pipeline with the clone step disabled; two steps still name it.\<close>

definition danglingSteps :: "Step list" where
  "danglingSteps =
     [mkStep ''build'' [] RunOnSuccess,
      mkStep ''test'' [''clone''] RunOnSuccess,
      mkStep ''deploy'' [''clone'', ''build''] RunOnSuccess]"

text \<open>A declared step that runs on success, on failure and when killed.\<close>

definition alwaysStep :: resource_Step where
  "alwaysStep =
     \<lparr>When = \<lparr>Status = \<lparr>Condition.Include = [''success'', ''failure'', ''killed''],
                             Exclude = []\<rparr>\<rparr>\<rparr>"

text \<open>A declared step without a status condition.\<close>

definition plainStep :: resource_Step where
  "plainStep = \<lparr>When = \<lparr>Status = \<lparr>Condition.Include = [], Exclude = []\<rparr>\<rparr>\<rparr>"

text \<open>
  A command with a memory limit of 512 and the flag defaults for the requests (100 for
  the stage, 4 as the minimum of a container), and one with a limit of \<open>2\<^sup>4\<^sup>3\<close>
  megabytes.
\<close>

definition defaultCommand :: execCommand where
  "defaultCommand =
     \<lparr>Include = [], Exclude = [],
      Resource = \<lparr>Limits = \<lparr>CPU = 0, Memory = 512, GPU = 0\<rparr>,
                  MinRequests = \<lparr>CPU = 1, Memory = 4, GPU = 0\<rparr>\<rparr>,
      StageRequests = \<lparr>CPU = 100, Memory = 100, GPU = 0\<rparr>\<rparr>"

definition hugeCommand :: execCommand where
  "hugeCommand =
     defaultCommand\<lparr>Resource := (Resource defaultCommand)
        \<lparr>Limits := \<lparr>CPU = 0, Memory = 8796093022208, GPU = 0\<rparr>\<rparr>\<rparr>"

section \<open>Run-policy resolution\<close>

text \<open>
  Claim C3. A step whose status condition has an empty include list and an empty
  exclude list is neither "always" nor "on failure", whatever the matcher answers,
  and the resolver leaves it at the default, on success only.
\<close>

theorem isRun_empty_condition:
  assumes "Condition.Include (Status (When step)) = []"
    and "Condition.Exclude (Status (When step)) = []"
  shows "\<not> isRunAlways Match step \<and> \<not> isRunOnFailure Match step \<and>
         resolveRunPolicy Match step = RunOnSuccess"
  using assms by (simp add: isRunAlways_def isRunOnFailure_def resolveRunPolicy_def)

text \<open>
  On \<open>plainStep\<close> the literal matcher accepts both statuses, and still neither helper
  answers true: the guard on the two lengths decides.
\<close>

theorem isRun_empty_condition_witness:
  "literalMatch (Status (When plainStep)) StatusFailing \<and>
   literalMatch (Status (When plainStep)) StatusPassing \<and>
   \<not> isRunAlways literalMatch plainStep \<and>
   \<not> isRunOnFailure literalMatch plainStep \<and>
   resolveRunPolicy literalMatch plainStep = RunOnSuccess"
  using isRun_empty_condition [of plainStep literalMatch]
  by (simp add: literalMatch_def plainStep_def)

text \<open>
  Claim C4. Whatever is "always" is also "on failure"; and a step whose condition is
  not empty and matches the failing and the passing status is "always", so the
  resolver, which asks for "always" first, never calls it "on failure".
\<close>

theorem isRunAlways_both:
  "(isRunAlways Match step \<longrightarrow> isRunOnFailure Match step) \<and>
   (\<not> (Condition.Include (Status (When step)) = [] \<and>
       Condition.Exclude (Status (When step)) = []) \<and>
    Match (Status (When step)) StatusFailing \<and> Match (Status (When step)) StatusPassing
      \<longrightarrow> isRunAlways Match step \<and> resolveRunPolicy Match step = RunAlways \<and>
          resolveRunPolicy Match step \<noteq> RunOnFailure)"
  by (simp add: isRunAlways_def isRunOnFailure_def resolveRunPolicy_def)

theorem isRunAlways_both_witness:
  "Condition.Include (Status (When alwaysStep)) \<noteq> [] \<and>
   literalMatch (Status (When alwaysStep)) StatusFailing \<and>
   literalMatch (Status (When alwaysStep)) StatusPassing \<and>
   isRunAlways literalMatch alwaysStep \<and> isRunOnFailure literalMatch alwaysStep \<and>
   resolveRunPolicy literalMatch alwaysStep = RunAlways"
  using isRunAlways_both [of literalMatch alwaysStep]
  by (simp add: literalMatch_def alwaysStep_def StatusFailing_def StatusPassing_def)

section \<open>Dependency graph\<close>

lemma isGraph_iff: "isGraph steps \<longleftrightarrow> (\<exists>s\<in>set steps. DependsOn s \<noteq> [])"
  by (induction steps) auto

lemma configureSerial_loop_length: "length (configureSerial_loop prev steps) = length steps"
  by (induction steps arbitrary: prev) (simp_all add: Let_def)

text \<open>
  What the loop leaves at position \<open>i\<close>, for any value of \<open>prev\<close> at its start: the
  first step depends on \<open>prev\<close> if there is one, every later step on the step before.
\<close>

lemma configureSerial_loop_nth:
  "i < length steps \<Longrightarrow>
   configureSerial_loop prev steps ! i =
     (if i = 0
      then (case prev of None \<Rightarrow> steps ! 0 | Some p \<Rightarrow> (steps ! 0)\<lparr>DependsOn := [Name p]\<rparr>)
      else (steps ! i)\<lparr>DependsOn := [Name (steps ! (i - 1))]\<rparr>)"
proof (induction steps arbitrary: prev i)
  case Nil
  then show ?case by simp
next
  case (Cons step steps)
  show ?case
  proof (cases i)
    case 0
    then show ?thesis by (simp add: Let_def split: option.split)
  next
    case (Suc j)
    with Cons.prems have j: "j < length steps" by simp
    show ?thesis
      using Cons.IH [OF j] Suc
      by (cases j; cases prev) (simp_all add: Let_def)
  qed
qed

text \<open>
  Claim C5. On a step sequence without any explicit dependency (\<open>isGraph\<close> is false),
  \<open>configureSerial\<close> keeps the length and changes nothing but \<open>DependsOn\<close>: the step at
  position 0 has no dependency, the step at a position \<open>i > 0\<close> has exactly the name
  of the step at \<open>i - 1\<close>.
\<close>

theorem configureSerial_chain:
  assumes "\<not> isGraph steps"
  shows "length (configureSerial steps) = length steps \<and>
         (\<forall>i<length steps.
            configureSerial steps ! i =
              (steps ! i)\<lparr>DependsOn := (if i = 0 then [] else [Name (steps ! (i - 1))])\<rparr>)"
proof (intro conjI allI impI)
  show "length (configureSerial steps) = length steps"
    by (simp add: configureSerial_def configureSerial_loop_length)
next
  fix i assume i: "i < length steps"
  then have "DependsOn (steps ! i) = []"
    using assms by (simp add: isGraph_iff)
  then have "i = 0 \<Longrightarrow> (steps ! 0)\<lparr>DependsOn := []\<rparr> = steps ! 0" by simp
  then show "configureSerial steps ! i =
      (steps ! i)\<lparr>DependsOn := (if i = 0 then [] else [Name (steps ! (i - 1))])\<rparr>"
    using configureSerial_loop_nth [OF i, of None] by (simp add: configureSerial_def)
qed

theorem configureSerial_chain_witness:
  "\<not> isGraph pipelineSteps \<and>
   map DependsOn (configureSerial pipelineSteps) = [[], [''clone''], [''build''], [''test'']]"
proof -
  have h: "\<not> isGraph pipelineSteps"
    by (simp add: pipelineSteps_def mkStep_def)
  note c = configureSerial_chain [OF h]
  from c have len: "length (configureSerial pipelineSteps) = 4"
    by (simp add: pipelineSteps_def)
  from c have nth: "\<And>i. i < 4 \<Longrightarrow> DependsOn (configureSerial pipelineSteps ! i) =
      (if i = 0 then [] else [Name (pipelineSteps ! (i - 1))])"
    by (simp add: pipelineSteps_def)
  have n0: "DependsOn (configureSerial pipelineSteps ! 0) = []"
    using nth [of 0] by simp
  have n1: "DependsOn (configureSerial pipelineSteps ! 1) = [''clone'']"
    using nth [of 1] by (simp add: pipelineSteps_def mkStep_def)
  have n2: "DependsOn (configureSerial pipelineSteps ! 2) = [''build'']"
    using nth [of 2] by (simp add: pipelineSteps_def mkStep_def)
  have n3: "DependsOn (configureSerial pipelineSteps ! 3) = [''test'']"
    using nth [of 3] by (simp add: pipelineSteps_def mkStep_def)
  obtain a b c d where abcd: "configureSerial pipelineSteps = [a, b, c, d]"
    using len by (auto simp: length_Suc_conv numeral_eq_Suc)
  show ?thesis
    using h n0 n1 n2 n3 unfolding abcd by (simp add: numeral_eq_Suc)
qed

subsection \<open>The clone dependency\<close>

lemma configureCloneDeps_map:
  "configureCloneDeps steps =
     map (\<lambda>s. if Name s \<noteq> ''clone'' \<and> DependsOn s = [] then s\<lparr>DependsOn := [''clone'']\<rparr> else s)
       steps"
  by (induction steps) simp_all

lemma configureCloneDeps_nth:
  "i < length steps \<Longrightarrow>
   configureCloneDeps steps ! i =
     (if Name (steps ! i) \<noteq> ''clone'' \<and> DependsOn (steps ! i) = []
      then (steps ! i)\<lparr>DependsOn := [''clone'']\<rparr> else steps ! i)"
  by (simp only: configureCloneDeps_map nth_map)

lemma hasCloneStep_iff: "hasCloneStep steps \<longleftrightarrow> ''clone'' \<in> Name ` set steps"
  by (induction steps) auto

lemma removeCloneDeps_loop_map:
  "removeCloneDeps_loop steps =
     map (\<lambda>s. if DependsOn s = [''clone''] then s\<lparr>DependsOn := []\<rparr> else s) steps"
proof (induction steps)
  case Nil
  then show ?case by simp
next
  case (Cons step steps)
  have "(length (DependsOn step) = 1 \<and> DependsOn step ! 0 = ''clone'') \<longleftrightarrow>
        DependsOn step = [''clone'']"
    by (cases "DependsOn step") auto
  with Cons show ?case by auto
qed

lemma removeCloneDeps_absent_nth:
  "''clone'' \<notin> Name ` set steps \<Longrightarrow> i < length steps \<Longrightarrow>
   removeCloneDeps steps ! i =
     (if DependsOn (steps ! i) = [''clone''] then (steps ! i)\<lparr>DependsOn := []\<rparr> else steps ! i)"
  by (simp only: removeCloneDeps_def hasCloneStep_iff removeCloneDeps_loop_map nth_map if_False)

lemma removeCloneDeps_present:
  "''clone'' \<in> Name ` set steps \<Longrightarrow> removeCloneDeps steps = steps"
  by (simp only: removeCloneDeps_def hasCloneStep_iff if_True)

lemma removeCloneDeps_length: "length (removeCloneDeps steps) = length steps"
  by (simp add: removeCloneDeps_def removeCloneDeps_loop_map)

lemma removeCloneDeps_names: "map Name (removeCloneDeps steps) = map Name steps"
  by (simp add: removeCloneDeps_def removeCloneDeps_loop_map)

text \<open>
  Claim C6. \<open>configureCloneDeps\<close> gives every step that is not the clone step and has
  no dependency exactly the dependency \<open>[''clone'']\<close> and leaves a step with a
  dependency as it is. \<open>removeCloneDeps\<close>, on a set without a clone step, empties the
  dependency list of every step that has exactly \<open>[''clone'']\<close>; on a set with a clone
  step it changes nothing. Both keep the number of steps.
\<close>

theorem cloneDeps_inject_remove:
  "(\<forall>i<length steps.
      (Name (steps ! i) \<noteq> ''clone'' \<and> DependsOn (steps ! i) = []
         \<longrightarrow> configureCloneDeps steps ! i = (steps ! i)\<lparr>DependsOn := [''clone'']\<rparr>) \<and>
      (DependsOn (steps ! i) \<noteq> [] \<longrightarrow> configureCloneDeps steps ! i = steps ! i)) \<and>
   length (configureCloneDeps steps) = length steps \<and>
   length (removeCloneDeps steps) = length steps \<and>
   (''clone'' \<notin> Name ` set steps \<longrightarrow>
      (\<forall>i<length steps. DependsOn (steps ! i) = [''clone''] \<longrightarrow>
         removeCloneDeps steps ! i = (steps ! i)\<lparr>DependsOn := []\<rparr>)) \<and>
   (''clone'' \<in> Name ` set steps \<longrightarrow> removeCloneDeps steps = steps)"
proof (intro conjI allI impI)
  show "length (configureCloneDeps steps) = length steps"
    by (simp add: configureCloneDeps_map)
  show "length (removeCloneDeps steps) = length steps"
    by (rule removeCloneDeps_length)
next
  fix i
  assume "i < length steps" "Name (steps ! i) \<noteq> ''clone'' \<and> DependsOn (steps ! i) = []"
  then show "configureCloneDeps steps ! i = (steps ! i)\<lparr>DependsOn := [''clone'']\<rparr>"
    by (simp add: configureCloneDeps_nth)
next
  fix i
  assume "i < length steps" "DependsOn (steps ! i) \<noteq> []"
  then show "configureCloneDeps steps ! i = steps ! i"
    by (simp add: configureCloneDeps_nth)
next
  fix i
  assume "''clone'' \<notin> Name ` set steps" "i < length steps" "DependsOn (steps ! i) = [''clone'']"
  then show "removeCloneDeps steps ! i = (steps ! i)\<lparr>DependsOn := []\<rparr>"
    by (simp add: removeCloneDeps_absent_nth)
next
  assume "''clone'' \<in> Name ` set steps"
  then show "removeCloneDeps steps = steps"
    by (rule removeCloneDeps_present)
qed

text \<open>
  The example of the specification: a clone step and three steps without dependency.
  After the injection the three depend on the clone step, and \<open>removeCloneDeps\<close> then
  changes nothing; in \<open>danglingSteps\<close>, without a clone step, the step at position 1
  loses its only dependency.
\<close>

theorem cloneDeps_inject_remove_witness:
  "DependsOn (configureCloneDeps pipelineSteps ! 0) = [] \<and>
   DependsOn (configureCloneDeps pipelineSteps ! 1) = [''clone''] \<and>
   DependsOn (configureCloneDeps pipelineSteps ! 2) = [''clone''] \<and>
   DependsOn (configureCloneDeps pipelineSteps ! 3) = [''clone''] \<and>
   length (configureCloneDeps pipelineSteps) = 4 \<and>
   removeCloneDeps pipelineSteps = pipelineSteps \<and>
   ''clone'' \<notin> set (map Name danglingSteps) \<and>
   DependsOn (danglingSteps ! 1) = [''clone''] \<and>
   DependsOn (removeCloneDeps danglingSteps ! 1) = []"
proof -
  note p = cloneDeps_inject_remove [of pipelineSteps]
  note d = cloneDeps_inject_remove [of danglingSteps]
  have four: "length pipelineSteps = 4"
    by (simp add: pipelineSteps_def)
  have fresh: "Name (pipelineSteps ! i) \<noteq> ''clone'' \<and> DependsOn (pipelineSteps ! i) = []"
    if "i = 1 \<or> i = 2 \<or> i = 3" for i
    using that by (auto simp: pipelineSteps_def mkStep_def)
  have inj: "configureCloneDeps pipelineSteps ! i = (pipelineSteps ! i)\<lparr>DependsOn := [''clone'']\<rparr>"
    if "i = 1 \<or> i = 2 \<or> i = 3" for i
  proof -
    have "i < length pipelineSteps" using that four by auto
    with p fresh [OF that] show ?thesis by blast
  qed
  have i0: "DependsOn (configureCloneDeps pipelineSteps ! 0) = []"
    by (simp add: pipelineSteps_def mkStep_def)
  from p four have len: "length (configureCloneDeps pipelineSteps) = 4"
    by simp
  have "''clone'' \<in> Name ` set pipelineSteps"
    by (simp add: pipelineSteps_def mkStep_def)
  with p have keep: "removeCloneDeps pipelineSteps = pipelineSteps"
    by blast
  have absent: "''clone'' \<notin> Name ` set danglingSteps"
    by (simp add: danglingSteps_def mkStep_def)
  have one: "1 < length danglingSteps" "DependsOn (danglingSteps ! 1) = [''clone'']"
    by (simp_all add: danglingSteps_def mkStep_def)
  with d absent have r1: "removeCloneDeps danglingSteps ! 1 = (danglingSteps ! 1)\<lparr>DependsOn := []\<rparr>"
    by blast
  show ?thesis
    using i0 inj [of 1] inj [of 2] inj [of 3] len keep absent one r1
    by simp
qed

text \<open>
  Claim C10. Without a clone step, \<open>removeCloneDeps\<close> empties the dependency list of
  exactly the steps that depend on \<open>[''clone'']\<close> alone and leaves every other step
  as it is. A step that names the clone step next to another entry therefore keeps
  the entry \<open>''clone''\<close>, which is the name of no step of the result.
\<close>

theorem removeCloneDeps_dangling:
  assumes "''clone'' \<notin> Name ` set steps"
  shows "(\<forall>i<length steps.
            removeCloneDeps steps ! i =
              (if DependsOn (steps ! i) = [''clone''] then (steps ! i)\<lparr>DependsOn := []\<rparr>
               else steps ! i)) \<and>
         (\<forall>i<length steps.
            ''clone'' \<in> set (DependsOn (steps ! i)) \<and> DependsOn (steps ! i) \<noteq> [''clone''] \<longrightarrow>
            ''clone'' \<in> set (DependsOn (removeCloneDeps steps ! i)) \<and>
            ''clone'' \<notin> Name ` set (removeCloneDeps steps))"
proof -
  have "set (map Name (removeCloneDeps steps)) = set (map Name steps)"
    by (simp only: removeCloneDeps_names)
  then have "Name ` set (removeCloneDeps steps) = Name ` set steps" by simp
  with assms show ?thesis
    by (simp add: removeCloneDeps_absent_nth)
qed

theorem removeCloneDeps_dangling_witness:
  "''clone'' \<notin> set (map Name danglingSteps) \<and>
   map DependsOn danglingSteps = [[], [''clone''], [''clone'', ''build'']] \<and>
   map DependsOn (removeCloneDeps danglingSteps) = [[], [], [''clone'', ''build'']] \<and>
   ''clone'' \<notin> set (map Name (removeCloneDeps danglingSteps))"
proof -
  have h: "''clone'' \<notin> Name ` set danglingSteps"
    by (simp add: danglingSteps_def mkStep_def)
  note d = removeCloneDeps_dangling [OF h]
  have l: "length (removeCloneDeps danglingSteps) = 3"
    by (simp add: removeCloneDeps_length danglingSteps_def)
  from d have n: "\<And>i. i < 3 \<Longrightarrow> removeCloneDeps danglingSteps ! i =
      (if DependsOn (danglingSteps ! i) = [''clone''] then (danglingSteps ! i)\<lparr>DependsOn := []\<rparr>
       else danglingSteps ! i)"
    by (simp add: danglingSteps_def)
  have n0: "DependsOn (removeCloneDeps danglingSteps ! 0) = []"
    using n [of 0] by (simp add: danglingSteps_def mkStep_def)
  have n1: "DependsOn (removeCloneDeps danglingSteps ! 1) = []"
    using n [of 1] by (simp add: danglingSteps_def mkStep_def)
  have n2: "DependsOn (removeCloneDeps danglingSteps ! 2) = [''clone'', ''build'']"
    using n [of 2] by (simp add: danglingSteps_def mkStep_def)
  have dang: "''clone'' \<in> set (DependsOn (removeCloneDeps danglingSteps ! 2)) \<and>
      ''clone'' \<notin> Name ` set (removeCloneDeps danglingSteps)"
    using d [THEN conjunct2, rule_format, of 2] by (simp add: danglingSteps_def mkStep_def)
  obtain a b c where abc: "removeCloneDeps danglingSteps = [a, b, c]"
    using l by (auto simp: length_Suc_conv numeral_eq_Suc)
  show ?thesis
    using n0 n1 n2 dang unfolding abc
    by (simp add: danglingSteps_def mkStep_def)
qed

section \<open>Step filter\<close>

lemma nameListed_iff: "nameListed n names \<longleftrightarrow> n \<in> set names"
  by (induction names) auto

lemma include_loop_map:
  "include_loop inc steps =
     map (\<lambda>s. if Name s = ''clone'' \<or> Name s \<in> set inc then s else s\<lparr>RunPolicy := RunNever\<rparr>)
       steps"
  by (induction steps) (simp_all add: nameListed_iff)

lemma exclude_loop_map:
  "exclude_loop exc steps =
     map (\<lambda>s. if Name s \<noteq> ''clone'' \<and> Name s \<in> set exc then s\<lparr>RunPolicy := RunNever\<rparr> else s)
       steps"
  by (induction steps) (simp_all add: nameListed_iff)

lemma include_loop_frame:
  "map Name (include_loop inc steps) = map Name steps \<and>
   map DependsOn (include_loop inc steps) = map DependsOn steps \<and>
   map ErrPolicy (include_loop inc steps) = map ErrPolicy steps \<and>
   map Step.more (include_loop inc steps) = map Step.more steps"
  by (induction steps) simp_all

lemma exclude_loop_frame:
  "map Name (exclude_loop exc steps) = map Name steps \<and>
   map DependsOn (exclude_loop exc steps) = map DependsOn steps \<and>
   map ErrPolicy (exclude_loop exc steps) = map ErrPolicy steps \<and>
   map Step.more (exclude_loop exc steps) = map Step.more steps"
  by (induction steps) simp_all




text \<open>
  Claim C1 says that with both lists supplied the exclude list is not evaluated, so
  that the run policies are those of the include list alone. The two blocks of the
  code are independent \<^verbatim>\<open>if\<close> statements, and the second runs as well: with the
  include list \<open>[''build'', ''test'']\<close> and the exclude list \<open>[''test'']\<close> the step
  \<open>test\<close> ends with "never", which the include list alone leaves at "always".
\<close>

theorem filterSteps_both_counterexample:
  "map RunPolicy (filterSteps [''build'', ''test''] [''test''] pipelineSteps) =
     [RunOnSuccess, RunOnSuccess, RunNever, RunNever] \<and>
   map RunPolicy (filterSteps [''build'', ''test''] [] pipelineSteps) =
     [RunOnSuccess, RunOnSuccess, RunAlways, RunNever] \<and>
   map RunPolicy (filterSteps [''build'', ''test''] [''test''] pipelineSteps) \<noteq>
   map RunPolicy (filterSteps [''build'', ''test''] [] pipelineSteps)"
  by (simp add: filterSteps_def includeSteps_def excludeSteps_def pipelineSteps_def mkStep_def)

text \<open>
  Claim C1, amended. With both lists non-empty both are honoured, the include list
  first: the result is that of the exclude list alone applied to the result of the
  include list alone. A step other than the clone step ends with "never" when it is
  not named in the include list or is named in the exclude list; every other step
  keeps its run policy.
\<close>

theorem filterSteps_both:
  assumes "inc \<noteq> []" and "exc \<noteq> []"
  shows "filterSteps inc exc steps = filterSteps [] exc (filterSteps inc [] steps) \<and>
         map RunPolicy (filterSteps inc exc steps) =
           map (\<lambda>s. if Name s \<noteq> ''clone'' \<and> (Name s \<notin> set inc \<or> Name s \<in> set exc)
                     then RunNever else RunPolicy s) steps"
  using assms
  by (simp add: includeSteps_def filterSteps_def excludeSteps_def include_loop_map exclude_loop_map)

theorem filterSteps_both_witness:
  "[''build'', ''test''] \<noteq> [] \<and> [''test''] \<noteq> [] \<and>
   map RunPolicy (filterSteps [''build'', ''test''] [''test''] pipelineSteps) =
     [RunOnSuccess, RunOnSuccess, RunNever, RunNever]"
proof -
  have "map RunPolicy (filterSteps [''build'', ''test''] [''test''] pipelineSteps) =
      map (\<lambda>s. if Name s \<noteq> ''clone'' \<and>
                   (Name s \<notin> set [''build'', ''test''] \<or> Name s \<in> set [''test''])
                then RunNever else RunPolicy s) pipelineSteps"
    using filterSteps_both [of "[''build'', ''test'']" "[''test'']" pipelineSteps] by blast
  then show ?thesis by (simp add: pipelineSteps_def mkStep_def)
qed

text \<open>
  Claim C7. Whatever the two lists are, the filter keeps the number of steps and, of
  every step, the name, the dependency list, the error policy and every field outside
  the record: it writes run policies only.
\<close>

theorem filterSteps_frame:
  "length (filterSteps inc exc steps) = length steps \<and>
   map Name (filterSteps inc exc steps) = map Name steps \<and>
   map DependsOn (filterSteps inc exc steps) = map DependsOn steps \<and>
   map ErrPolicy (filterSteps inc exc steps) = map ErrPolicy steps \<and>
   map Step.more (filterSteps inc exc steps) = map Step.more steps"
proof -
  have n: "map Name (filterSteps inc exc steps) = map Name steps"
    by (simp add: filterSteps_def includeSteps_def excludeSteps_def
        include_loop_frame exclude_loop_frame)
  have "length (map Name (filterSteps inc exc steps)) = length (map Name steps)"
    by (simp only: n)
  then have l: "length (filterSteps inc exc steps) = length steps" by simp
  show ?thesis
    using l n
    by (simp add: filterSteps_def includeSteps_def excludeSteps_def
        include_loop_frame exclude_loop_frame)
qed

section \<open>Resource amounts\<close>

lemma firstNonZero_find:
  "firstNonZero values = (case find (\<lambda>v. 0 <s v) values of None \<Rightarrow> 0 | Some v \<Rightarrow> v)"
  by (induction "values") simp_all

lemma firstNonZero_spec_agree:
  "\<forall>v\<in>set values. 0 \<le>s v \<Longrightarrow> firstNonZero values = firstNonZero_spec values"
  by (induction "values") (auto simp: word_sless_eq)

text \<open>
  Claim C8 says that the first candidate different from zero is returned. The code
  asks for \<^verbatim>\<open>value > 0\<close>: a negative candidate is passed over like a zero. Of
  \<open>-1, 512, 256\<close> the first non-zero candidate is \<open>-1\<close>, and the code returns 512.
\<close>

theorem firstNonZero_counterexample:
  "firstNonZero [- 1, 512, 256] = 512 \<and> firstNonZero_spec [- 1, 512, 256] = - 1 \<and>
   firstNonZero [- 1, 512, 256] \<noteq> firstNonZero_spec [- 1, 512, 256]"
  by (simp add: word_sless_alt)

text \<open>
  Claim C8, amended. \<open>firstNonZero\<close> returns the first candidate greater than zero, in
  the order given, and 0 when no candidate is greater than zero. When no candidate
  is negative this is the first candidate different from zero; and a step limit 0
  with the defaults 512 and 256 resolves to 512.
\<close>

theorem firstNonZero_positive:
  "firstNonZero values = (case find (\<lambda>v. 0 <s v) values of None \<Rightarrow> 0 | Some v \<Rightarrow> v) \<and>
   ((\<forall>v\<in>set values. 0 \<le>s v) \<longrightarrow> firstNonZero values = firstNonZero_spec values) \<and>
   firstNonZero [0, 512, 256] = 512"
proof (intro conjI impI)
  show "firstNonZero values = (case find (\<lambda>v. 0 <s v) values of None \<Rightarrow> 0 | Some v \<Rightarrow> v)"
    by (rule firstNonZero_find)
next
  assume "\<forall>v\<in>set values. 0 \<le>s v"
  then show "firstNonZero values = firstNonZero_spec values"
    by (rule firstNonZero_spec_agree)
next
  show "firstNonZero [0, 512, 256] = 512"
    by (simp add: word_sless_alt)
qed

theorem firstNonZero_positive_witness:
  "0 \<le>s (0 :: int64) \<and> 0 \<le>s (1024 :: int64) \<and> 0 \<le>s (256 :: int64) \<and>
   firstNonZero [0, 1024, 256] = 1024 \<and> firstNonZero_spec [0, 1024, 256] = 1024"
  using firstNonZero_positive [of "[0, 1024, 256]"]
  by (simp add: word_sle_eq word_sless_alt)

subsection \<open>Megabytes to bytes\<close>

lemma sint_megabytes:
  fixes m :: int64
  assumes "mbInRange m"
  shows "sint (m * 1048576) = sint m * 1048576"
proof -
  have "sint (m * 1048576) = signed_take_bit 63 (sint m * 1048576)"
    by (simp add: sint_word_ariths)
  also have "\<dots> = sint m * 1048576"
    using assms unfolding mbInRange_def by (intro signed_take_bit_int_eq_self) auto
  finally show ?thesis .
qed

lemma convertMemory_fields:
  "Memory (Limits (Resource (convertMemory c))) = Memory (Limits (Resource c)) * 1048576"
  "Memory (MinRequests (Resource (convertMemory c))) =
     Memory (MinRequests (Resource c)) * 1048576"
  "Memory (execCommand.StageRequests (convertMemory c)) =
     Memory (execCommand.StageRequests c) * 1048576"
  by (simp_all add: convertMemory_def Let_def)

lemma run_compiler_fields:
  "Limits (Compiler.Resources (run_compiler c)) = Limits (Resource (convertMemory c))"
  "MinRequests (Compiler.Resources (run_compiler c)) = MinRequests (Resource (convertMemory c))"
  "Compiler.StageRequests (run_compiler c) = execCommand.StageRequests (convertMemory c)"
  by (simp_all add: run_compiler_def newCompiler_def)

text \<open>
  Claim C9 says that every memory amount is multiplied by exactly 1,048,576. The
  product is an \<^verbatim>\<open>int64\<close> product: a limit of \<open>2\<^sup>4\<^sup>3\<close> megabytes (8796093022208)
  reaches the compiler as \<open>- 2\<^sup>6\<^sup>3\<close>, not as \<open>2\<^sup>6\<^sup>3\<close> bytes.
\<close>

theorem memory_conversion_counterexample:
  "sint (Memory (Limits (Resource hugeCommand))) = 8796093022208 \<and>
   sint (Memory (Limits (Compiler.Resources (run_compiler hugeCommand)))) =
     - 9223372036854775808 \<and>
   sint (Memory (Limits (Compiler.Resources (run_compiler hugeCommand)))) \<noteq>
     sint (Memory (Limits (Resource hugeCommand))) * 1048576"
  by (simp add: run_compiler_fields convertMemory_fields hugeCommand_def defaultCommand_def)

text \<open>
  Claim C9, amended. Each of the three memory amounts (container limit, container
  minimum request, stage request) reaches the compiler multiplied once by 1,048,576
  in \<^verbatim>\<open>int64\<close> arithmetic, that is modulo \<open>2\<^sup>6\<^sup>4\<close>; for an amount from \<open>- 2\<^sup>4\<^sup>3\<close> up to,
  and without, \<open>2\<^sup>4\<^sup>3\<close> megabytes the value that arrives is exactly 1,048,576 times the
  value supplied.
\<close>

theorem memory_conversion:
  "Memory (Limits (Compiler.Resources (run_compiler c))) =
     Memory (Limits (Resource c)) * 1048576 \<and>
   Memory (MinRequests (Compiler.Resources (run_compiler c))) =
     Memory (MinRequests (Resource c)) * 1048576 \<and>
   Memory (Compiler.StageRequests (run_compiler c)) =
     Memory (execCommand.StageRequests c) * 1048576 \<and>
   (mbInRange (Memory (Limits (Resource c))) \<longrightarrow>
      sint (Memory (Limits (Compiler.Resources (run_compiler c)))) =
        sint (Memory (Limits (Resource c))) * 1048576) \<and>
   (mbInRange (Memory (MinRequests (Resource c))) \<longrightarrow>
      sint (Memory (MinRequests (Compiler.Resources (run_compiler c)))) =
        sint (Memory (MinRequests (Resource c))) * 1048576) \<and>
   (mbInRange (Memory (execCommand.StageRequests c)) \<longrightarrow>
      sint (Memory (Compiler.StageRequests (run_compiler c))) =
        sint (Memory (execCommand.StageRequests c)) * 1048576)"
  by (simp add: run_compiler_fields convertMemory_fields sint_megabytes)

theorem memory_conversion_witness:
  "mbInRange (Memory (Limits (Resource defaultCommand))) \<and>
   mbInRange (Memory (MinRequests (Resource defaultCommand))) \<and>
   mbInRange (Memory (execCommand.StageRequests defaultCommand)) \<and>
   sint (Memory (Limits (Compiler.Resources (run_compiler defaultCommand)))) = 536870912 \<and>
   sint (Memory (MinRequests (Compiler.Resources (run_compiler defaultCommand)))) = 4194304 \<and>
   sint (Memory (Compiler.StageRequests (run_compiler defaultCommand))) = 104857600"
proof -
  have r: "mbInRange (Memory (Limits (Resource defaultCommand)))"
    "mbInRange (Memory (MinRequests (Resource defaultCommand)))"
    "mbInRange (Memory (execCommand.StageRequests defaultCommand))"
    by (simp_all add: mbInRange_def defaultCommand_def)
  from r memory_conversion [of defaultCommand]
  have "sint (Memory (Limits (Compiler.Resources (run_compiler defaultCommand)))) =
          sint (Memory (Limits (Resource defaultCommand))) * 1048576"
    and "sint (Memory (MinRequests (Compiler.Resources (run_compiler defaultCommand)))) =
          sint (Memory (MinRequests (Resource defaultCommand))) * 1048576"
    and "sint (Memory (Compiler.StageRequests (run_compiler defaultCommand))) =
          sint (Memory (execCommand.StageRequests defaultCommand)) * 1048576"
    by blast+
  then show ?thesis using r by (simp add: defaultCommand_def)
qed

end
